theory Spec2Isabelle
  imports Complex_Main "HOL-Library.AList"
begin

section \<open>Coinbase ingestion: data model\<close>

text \<open>
  The development embeds \<^verbatim>\<open>src/ingestion/coinbase/main.py\<close>: the bar accumulator
  \<^verbatim>\<open>OHLCV\<close> and the methods of \<^verbatim>\<open>CoinbaseIngestor\<close>.

  Conventions of the embedding.
  \<^item> A Python \<^verbatim>\<open>float\<close> is a finite double and is modelled by the real number it
    denotes: comparison is exact, addition rounds to the nearest double. NaN and the
    infinities are outside the model.
  \<^item> A Python \<^verbatim>\<open>datetime\<close> keeps its time-of-day fields; its date part (year, month,
    day), which the code never reads or changes on its own, is the proleptic Gregorian
    day number \<^verbatim>\<open>date.toordinal()\<close>. An aware datetime carries its UTC offset in
    seconds.
  \<^item> A bucket key is the text \<^verbatim>\<open>hour_ts.isoformat()\<close> of an aware datetime, and
    \<^verbatim>\<open>parser.isoparse\<close> reads that text back to the same aware datetime; a key is
    therefore represented by the aware datetime it denotes, and so is the
    \<^verbatim>\<open>timestamp\<close> field of a row.
  \<^item> The libraries that parse text (\<^verbatim>\<open>float\<close> on a string, \<^verbatim>\<open>parser.isoparse\<close>) are
    parameters of the model; \<^verbatim>\<open>json.loads\<close> is represented by its result.
\<close>

subsection \<open>Datetimes\<close>

record naive_datetime =
  ordinal :: int
  hour :: nat
  minute :: nat
  second :: nat
  microsecond :: nat

record aware_datetime = naive_datetime +
  utcoffset :: int

datatype datetime = Naive naive_datetime | Aware aware_datetime

text \<open>The UTC instant of an aware datetime, in microseconds since the start of day 0.
  Python compares two aware datetimes by this instant.\<close>

definition instant :: "aware_datetime \<Rightarrow> int" where
  "instant d =
     (((ordinal d * 24 + int (hour d)) * 60 + int (minute d)) * 60 + int (second d)) * 1000000
       + int (microsecond d) - utcoffset d * 1000000"

text \<open>\<^verbatim>\<open>t.replace(minute=0, second=0, microsecond=0, tzinfo=timezone.utc)\<close>: the date
  and the hour are kept as they are, the offset is overwritten with UTC.\<close>

fun replace_hour_utc :: "datetime \<Rightarrow> aware_datetime" where
  "replace_hour_utc (Naive t) =
     \<lparr>ordinal = ordinal t, hour = hour t, minute = 0, second = 0, microsecond = 0,
      utcoffset = 0\<rparr>"
| "replace_hour_utc (Aware t) = t\<lparr>minute := 0, second := 0, microsecond := 0, utcoffset := 0\<rparr>"

text \<open>\<^verbatim>\<open>now.replace(minute=0, second=0, microsecond=0)\<close>, where \<^verbatim>\<open>now\<close> is
  \<^verbatim>\<open>datetime.now(timezone.utc)\<close>.\<close>

definition current_hour :: "aware_datetime \<Rightarrow> aware_datetime" where
  "current_hour now = now\<lparr>minute := 0, second := 0, microsecond := 0\<rparr>"

subsection \<open>Floating-point addition\<close>

text \<open>Rounding to the nearest integer, ties to the even one.\<close>

definition round_half_even :: "real \<Rightarrow> int" where
  "round_half_even q =
     (let f = \<lfloor>q\<rfloor> in
      if q - of_int f < 1 / 2 then f
      else if 1 / 2 < q - of_int f then f + 1
      else if even f then f else f + 1)"

text \<open>The binary exponent of the last place of a double near \<open>x\<close>: a double has 53
  significant bits, and below \<open>2 ^ -1022\<close> the spacing stays \<open>2 ^ -1074\<close>.\<close>

definition ulp_exponent :: "real \<Rightarrow> int" where
  "ulp_exponent x = max (\<lfloor>log 2 \<bar>x\<bar>\<rfloor> - 52) (- 1074)"

text \<open>The double nearest to a real (IEEE 754 binary64, round to nearest, ties to even). A
  result beyond the largest double is an infinity in Python and is not modelled.\<close>

definition round_double :: "real \<Rightarrow> real" where
  "round_double x =
     (if x = 0 then 0
      else of_int (round_half_even (x / 2 powr of_int (ulp_exponent x)))
             * 2 powr of_int (ulp_exponent x))"

text \<open>\<^verbatim>\<open>x + y\<close> on floats: adding zero returns the other operand, any other sum is the
  exact sum rounded.\<close>

definition fadd :: "real \<Rightarrow> real \<Rightarrow> real" where
  "fadd x y = (if y = 0 then x else if x = 0 then y else round_double (x + y))"

subsection \<open>Bar accumulator\<close>

record OHLCV =
  "open" :: "real option"
  high :: "real option"
  low :: "real option"
  close :: "real option"
  volume :: real

text \<open>\<^verbatim>\<open>OHLCV.__init__\<close>\<close>

definition OHLCV_init :: OHLCV where
  "OHLCV_init = \<lparr>open = None, high = None, low = None, close = None, volume = 0\<rparr>"

text \<open>\<^verbatim>\<open>OHLCV.add_tick\<close>\<close>

definition add_tick :: "real \<Rightarrow> real \<Rightarrow> OHLCV \<Rightarrow> OHLCV" where
  "add_tick price sz b =
     \<lparr>open = (if open b = None then Some price else open b),
      high = (case high b of None \<Rightarrow> Some price
              | Some h \<Rightarrow> if price > h then Some price else Some h),
      low = (case low b of None \<Rightarrow> Some price
             | Some l \<Rightarrow> if price < l then Some price else Some l),
      close = Some price,
      volume = fadd (volume b) sz\<rparr>"

text \<open>A sequence of ticks \<open>(price, size)\<close> applied in order to one accumulator.\<close>

definition add_ticks :: "(real \<times> real) list \<Rightarrow> OHLCV \<Rightarrow> OHLCV" where
  "add_ticks ticks b = foldl (\<lambda>acc (price, sz). add_tick price sz acc) b ticks"

record row =
  row_timestamp :: aware_datetime
  row_symbol :: string
  row_open :: "real option"
  row_high :: "real option"
  row_low :: "real option"
  row_close :: "real option"
  row_volume :: real

text \<open>\<^verbatim>\<open>OHLCV.to_row\<close>\<close>

definition to_row :: "string \<Rightarrow> aware_datetime \<Rightarrow> OHLCV \<Rightarrow> row" where
  "to_row symbol ts b =
     \<lparr>row_timestamp = ts,
      row_symbol = symbol,
      row_open = (if open b \<noteq> None then open b else None),
      row_high = (if high b \<noteq> None then high b else None),
      row_low = (if low b \<noteq> None then low b else None),
      row_close = (if close b \<noteq> None then close b else None),
      row_volume = volume b\<rparr>"

subsection \<open>Decoded messages and library parsers\<close>

text \<open>The value \<^verbatim>\<open>json.loads\<close> returns. A JSON object is the Python dict, given by its
  items; \<^verbatim>\<open>None\<close> is \<open>JNull\<close>; a number is a Python \<^verbatim>\<open>int\<close> (\<open>JInt\<close>) or a
  \<^verbatim>\<open>float\<close> (\<open>JNum\<close>).\<close>

datatype json =
    JNull
  | JBool bool
  | JInt int
  | JNum real
  | JStr string
  | JArr "json list"
  | JObj "(string \<times> json) list"

text \<open>Exceptions. Every handler of the code is \<^verbatim>\<open>except Exception\<close>, so only the fact that
  one is raised matters to the control flow; the constructor records the usual class.
  \<open>GoogleAPIError\<close> stands for what the BigQuery client raises.\<close>

datatype error =
    TypeError
  | ValueError
  | OverflowError
  | AttributeError
  | KeyError
  | ConnectionError
  | HTTPError
  | GoogleAPIError

text \<open>The text parsers of the libraries: \<^verbatim>\<open>float\<close> applied to a string and
  \<^verbatim>\<open>dateutil.parser.isoparse\<close>; \<open>None\<close> where they raise.\<close>

record parsers =
  float_of_str :: "string \<Rightarrow> real option"
  isoparse_str :: "string \<Rightarrow> datetime option"

text \<open>\<^verbatim>\<open>d.get(k)\<close> and \<^verbatim>\<open>d.get(k, default)\<close>\<close>

definition dict_get :: "(string \<times> json) list \<Rightarrow> string \<Rightarrow> json" where
  "dict_get d k = (case map_of d k of None \<Rightarrow> JNull | Some v \<Rightarrow> v)"

definition dict_get_default :: "(string \<times> json) list \<Rightarrow> string \<Rightarrow> json \<Rightarrow> json" where
  "dict_get_default d k dflt = (case map_of d k of None \<Rightarrow> dflt | Some v \<Rightarrow> v)"

text \<open>\<^verbatim>\<open>float(n)\<close> for an \<^verbatim>\<open>int\<close>: the nearest double, and \<^verbatim>\<open>OverflowError\<close> where that
  is beyond the largest double.\<close>

definition float_of_int :: "int \<Rightarrow> error + real" where
  "float_of_int n =
     (if \<bar>round_double (of_int n)\<bar> < 2 ^ 1024 then Inr (round_double (of_int n))
      else Inl OverflowError)"

text \<open>\<^verbatim>\<open>float(v)\<close>\<close>

fun py_float :: "parsers \<Rightarrow> json \<Rightarrow> error + real" where
  "py_float P JNull = Inl TypeError"
| "py_float P (JBool b) = Inr (if b then 1 else 0)"
| "py_float P (JInt n) = float_of_int n"
| "py_float P (JNum r) = Inr r"
| "py_float P (JStr s) = (case float_of_str P s of None \<Rightarrow> Inl ValueError | Some r \<Rightarrow> Inr r)"
| "py_float P (JArr xs) = Inl TypeError"
| "py_float P (JObj d) = Inl TypeError"

text \<open>\<^verbatim>\<open>parser.isoparse(v)\<close>: anything but a string raises.\<close>

fun py_isoparse :: "parsers \<Rightarrow> json \<Rightarrow> error + datetime" where
  "py_isoparse P (JStr s) =
     (case isoparse_str P s of None \<Rightarrow> Inl ValueError | Some t \<Rightarrow> Inr t)"
| "py_isoparse P v = Inl TypeError"

text \<open>Truth value of a decoded value, as in \<^verbatim>\<open>if ticker.get("time")\<close>.\<close>

fun truthy :: "json \<Rightarrow> bool" where
  "truthy JNull = False"
| "truthy (JBool b) = b"
| "truthy (JInt n) = (n \<noteq> 0)"
| "truthy (JNum r) = (r \<noteq> 0)"
| "truthy (JStr s) = (s \<noteq> [])"
| "truthy (JArr xs) = (xs \<noteq> [])"
| "truthy (JObj d) = (d \<noteq> [])"

subsection \<open>Ingestor state\<close>

datatype log_entry =
    Subscribed string
  | InsertErrors "string list"
  | Inserted nat
  | WSFailed error
  | RESTFailed error

text \<open>
  The state of a \<^verbatim>\<open>CoinbaseIngestor\<close>: \<open>agg\<close> is the dict \<^verbatim>\<open>self.agg\<close> as its items in
  insertion order (keys are unique in a dict); \<open>inserted\<close> lists the batches passed to
  \<^verbatim>\<open>insert_rows_json\<close>, \<open>logged\<close> the records handed to the logger. The fields
  \<^verbatim>\<open>dataset\<close>, \<^verbatim>\<open>table\<close> and \<^verbatim>\<open>bq_client\<close> never change; \<^verbatim>\<open>running\<close> is set once
  by \<^verbatim>\<open>run\<close> and never cleared.
\<close>

record ingestor =
  product_id :: string
  agg :: "(aware_datetime \<times> OHLCV) list"
  inserted :: "row list list"
  logged :: "log_entry list"

text \<open>\<^verbatim>\<open>CoinbaseIngestor.__init__\<close>\<close>

definition CoinbaseIngestor_init :: "string \<Rightarrow> ingestor" where
  "CoinbaseIngestor_init pid = \<lparr>product_id = pid, agg = [], inserted = [], logged = []\<rparr>"

text \<open>What one flush reads from the outside: the wall clock
  \<^verbatim>\<open>datetime.now(timezone.utc)\<close> and what \<^verbatim>\<open>insert_rows_json\<close> does if a batch is
  written: it raises, or it returns a list of errors.\<close>

record env =
  clock :: aware_datetime
  bq_result :: "error + string list"

text \<open>\<^verbatim>\<open>self.agg[key].add_tick(price, size)\<close> on the \<^verbatim>\<open>defaultdict(OHLCV)\<close>: a missing
  key gets a fresh bar at the end of the dict, a present key keeps its place.\<close>

definition agg_add_tick ::
  "aware_datetime \<Rightarrow> real \<Rightarrow> real \<Rightarrow> (aware_datetime \<times> OHLCV) list
     \<Rightarrow> (aware_datetime \<times> OHLCV) list" where
  "agg_add_tick key price sz store =
     AList.update key
       (add_tick price sz (case map_of store key of None \<Rightarrow> OHLCV_init | Some b \<Rightarrow> b)) store"

subsection \<open>Flush scheduler and row sink\<close>

text \<open>\<^verbatim>\<open>write_rows_bq\<close>. It has no handler: an exception of \<^verbatim>\<open>insert_rows_json\<close>
  leaves it before anything is logged.\<close>

definition write_rows_bq ::
  "error + string list \<Rightarrow> row list \<Rightarrow> ingestor \<Rightarrow> error option \<times> ingestor" where
  "write_rows_bq result rows st =
     (case result of
        Inl err \<Rightarrow> (Some err, st\<lparr>inserted := inserted st @ [rows]\<rparr>)
      | Inr errors \<Rightarrow>
          (None, st\<lparr>inserted := inserted st @ [rows],
                    logged := logged st @ [if errors \<noteq> [] then InsertErrors errors
                                           else Inserted (length rows)]\<rparr>))"

text \<open>\<^verbatim>\<open>[k for k in self.agg.keys() if parser.isoparse(k) < current_hour]\<close>\<close>

definition to_flush :: "aware_datetime \<Rightarrow> (aware_datetime \<times> OHLCV) list \<Rightarrow> aware_datetime list" where
  "to_flush now store = [k \<leftarrow> map fst store. instant k < instant (current_hour now)]"

text \<open>The loop \<^verbatim>\<open>for k in to_flush\<close>; \<^verbatim>\<open>self.agg.pop(k)\<close> raises on a missing key.\<close>

fun flush_loop ::
  "string \<Rightarrow> aware_datetime list \<Rightarrow> (aware_datetime \<times> OHLCV) list \<Rightarrow> row list
     \<Rightarrow> error option \<times> (aware_datetime \<times> OHLCV) list \<times> row list" where
  "flush_loop pid [] store rows = (None, store, rows)"
| "flush_loop pid (k # ks) store rows =
     (case map_of store k of
        None \<Rightarrow> (Some KeyError, store, rows)
      | Some b \<Rightarrow> flush_loop pid ks (AList.delete k store) (rows @ [to_row pid k b]))"

text \<open>\<^verbatim>\<open>maybe_flush_old_buckets\<close>. The result is the exception raised, if any, and the
  state reached.\<close>

definition maybe_flush_old_buckets :: "env \<Rightarrow> ingestor \<Rightarrow> error option \<times> ingestor" where
  "maybe_flush_old_buckets e st =
     (case flush_loop (product_id st) (to_flush (clock e) (agg st)) (agg st) [] of
        (Some err, store, rows) \<Rightarrow> (Some err, st\<lparr>agg := store\<rparr>)
      | (None, store, rows) \<Rightarrow>
          if rows \<noteq> [] then write_rows_bq (bq_result e) rows (st\<lparr>agg := store\<rparr>)
          else (None, st\<lparr>agg := store\<rparr>))"

subsection \<open>Feed client, fallback poller and supervisor\<close>

text \<open>\<^verbatim>\<open>handle_trade_msg\<close>\<close>

definition handle_trade_msg ::
  "parsers \<Rightarrow> env \<Rightarrow> (string \<times> json) list \<Rightarrow> ingestor \<Rightarrow> error option \<times> ingestor" where
  "handle_trade_msg P e data st =
     (case py_float P (dict_get data ''price'') of
        Inl err \<Rightarrow> (Some err, st)
      | Inr price \<Rightarrow>
     (case py_float P (dict_get_default data ''size'' (JNum 0)) of
        Inl err \<Rightarrow> (Some err, st)
      | Inr sz \<Rightarrow>
     (case py_isoparse P (dict_get data ''time'') of
        Inl err \<Rightarrow> (Some err, st)
      | Inr t \<Rightarrow>
          maybe_flush_old_buckets e
            (st\<lparr>agg := agg_add_tick (replace_hour_utc t) price sz (agg st)\<rparr>))))"

text \<open>One inbound websocket message: the result of \<^verbatim>\<open>json.loads\<close> (\<open>None\<close> where it
  raises) and what a flush triggered by the message reads from the outside.\<close>

record ws_event =
  ws_msg :: "json option"
  ws_env :: env

text \<open>The loop \<^verbatim>\<open>async for msg in ws\<close> of \<^verbatim>\<open>connect_ws\<close>. A decoded value that is not a
  dict has no \<^verbatim>\<open>get\<close>.\<close>

fun ws_loop :: "parsers \<Rightarrow> ws_event list \<Rightarrow> ingestor \<Rightarrow> error option \<times> ingestor" where
  "ws_loop P [] st = (None, st)"
| "ws_loop P (ev # evs) st =
     (case ws_msg ev of
        None \<Rightarrow> ws_loop P evs st
      | Some (JObj data) \<Rightarrow>
          if dict_get data ''type'' = JStr ''match'' then
            (case handle_trade_msg P (ws_env ev) data st of
               (Some err, st') \<Rightarrow> (Some err, st')
             | (None, st') \<Rightarrow> ws_loop P evs st')
          else ws_loop P evs st
      | Some _ \<Rightarrow> (Some AttributeError, st))"

text \<open>A websocket session: the connection is refused, or it delivers messages and is
  then closed, normally (the iteration ends) or abnormally (the iteration raises).\<close>

datatype ws_close = ClosedOK | ClosedError

datatype ws_session = ConnectFailed | Connected "ws_event list" ws_close

text \<open>\<^verbatim>\<open>connect_ws\<close>\<close>

fun connect_ws :: "parsers \<Rightarrow> ws_session \<Rightarrow> ingestor \<Rightarrow> error option \<times> ingestor" where
  "connect_ws P ConnectFailed st = (Some ConnectionError, st)"
| "connect_ws P (Connected evs c) st =
     (case ws_loop P evs (st\<lparr>logged := logged st @ [Subscribed (product_id st)]\<rparr>) of
        (Some err, st') \<Rightarrow> (Some err, st')
      | (None, st') \<Rightarrow>
          (case c of ClosedOK \<Rightarrow> (None, st') | ClosedError \<Rightarrow> (Some ConnectionError, st')))"

text \<open>One poll: the result of \<^verbatim>\<open>rest_get_ticker\<close> (the decoded body, or the exception of
  the request), the clock read for a ticker without \<^verbatim>\<open>time\<close>, and what the flush reads.\<close>

record poll =
  ticker :: "error + json"
  poll_clock :: aware_datetime
  poll_env :: env

text \<open>The body of the inner \<^verbatim>\<open>try\<close> of \<^verbatim>\<open>run\<close>. The assignment to \<^verbatim>\<open>time_str\<close> has no
  effect and is left out.\<close>

definition rest_fallback :: "parsers \<Rightarrow> poll \<Rightarrow> ingestor \<Rightarrow> error option \<times> ingestor" where
  "rest_fallback P p st =
     (case ticker p of
        Inl err \<Rightarrow> (Some err, st)
      | Inr (JObj data) \<Rightarrow>
         (case py_float P (dict_get data ''price'') of
            Inl err \<Rightarrow> (Some err, st)
          | Inr price \<Rightarrow>
         (case py_float P (dict_get_default data ''size'' (JNum 0)) of
            Inl err \<Rightarrow> (Some err, st)
          | Inr sz \<Rightarrow>
         (case (if truthy (dict_get data ''time'') then py_isoparse P (dict_get data ''time'')
                else Inr (Aware (poll_clock p))) of
            Inl err \<Rightarrow> (Some err, st)
          | Inr t \<Rightarrow>
              maybe_flush_old_buckets (poll_env p)
                (st\<lparr>agg := agg_add_tick (replace_hour_utc t) price sz (agg st)\<rparr>))))
      | Inr _ \<Rightarrow> (Some AttributeError, st))"

text \<open>One iteration of the \<^verbatim>\<open>while self.running\<close> loop of \<^verbatim>\<open>run\<close>: a websocket session
  and, if it raises, one poll (followed by the sleep).\<close>

record round =
  session :: ws_session
  fallback :: poll

definition run_iter :: "parsers \<Rightarrow> ingestor \<Rightarrow> round \<Rightarrow> ingestor" where
  "run_iter P st r =
     (case connect_ws P (session r) st of
        (None, st1) \<Rightarrow> st1
      | (Some e, st1) \<Rightarrow>
          (case rest_fallback P (fallback r) (st1\<lparr>logged := logged st1 @ [WSFailed e]\<rparr>) of
             (None, st2) \<Rightarrow> st2
           | (Some re, st2) \<Rightarrow> st2\<lparr>logged := logged st2 @ [RESTFailed re]\<rparr>))"

text \<open>\<^verbatim>\<open>run\<close> never returns; the state after any number of iterations of its loop.\<close>

definition run :: "parsers \<Rightarrow> round list \<Rightarrow> ingestor \<Rightarrow> ingestor" where
  "run P rounds st = foldl (run_iter P) st rounds"

text \<open>The states the ingestor can be in between two steps: the initial one, and the one
  left by a trade message or by a poll, whether they succeed or raise.\<close>

inductive reachable :: "parsers \<Rightarrow> ingestor \<Rightarrow> bool" for P :: parsers where
  reach_init: "reachable P (CoinbaseIngestor_init pid)"
| reach_trade: "reachable P st \<Longrightarrow> reachable P (snd (handle_trade_msg P e data st))"
| reach_poll: "reachable P st \<Longrightarrow> reachable P (snd (rest_fallback P p st))"
| reach_log: "reachable P st \<Longrightarrow> reachable P (st\<lparr>logged := logged st @ [entry]\<rparr>)"

subsection \<open>Reference notions of the specification\<close>

text \<open>One hour in microseconds, the configured bucket interval.\<close>

definition hour_us :: int where
  "hour_us = 3600000000"

text \<open>The specification's bucket start \<open>floor(t, I)\<close> in UTC, as an instant: the instant
  of \<open>t\<close> rounded down to a multiple of the interval.\<close>

definition floor_utc :: "int \<Rightarrow> aware_datetime \<Rightarrow> int" where
  "floor_utc I t = (instant t div I) * I"

subsection \<open>Notions used in the statements\<close>

text \<open>A store entry whose bucket start lies strictly before the current hour of the clock:
  the test of the comprehension in \<^verbatim>\<open>maybe_flush_old_buckets\<close>, on an entry.\<close>

definition elapsed :: "aware_datetime \<Rightarrow> aware_datetime \<times> OHLCV \<Rightarrow> bool" where
  "elapsed now p = (instant (fst p) < instant (current_hour now))"

text \<open>A bar that results from applying at least one tick to a fresh accumulator.\<close>

definition has_ticks :: "OHLCV \<Rightarrow> bool" where
  "has_ticks b = (\<exists>ticks. ticks \<noteq> [] \<and> b = add_ticks ticks OHLCV_init)"

text \<open>No bar of the store and no row handed to the sink is without a tick.\<close>

definition no_empty_bar :: "ingestor \<Rightarrow> bool" where
  "no_empty_bar st =
     ((\<forall>p \<in> set (agg st). has_ticks (snd p) \<and> open (snd p) \<noteq> None)
    \<and> (\<forall>batch \<in> set (inserted st). \<forall>r \<in> set batch.
          row_open r \<noteq> None \<and> (\<exists>k b. has_ticks b \<and> r = to_row (product_id st) k b)))"

text \<open>The keys of a dict are unique, and no bar is without a tick.\<close>

definition sound :: "ingestor \<Rightarrow> bool" where
  "sound st = (distinct (map fst (agg st)) \<and> no_empty_bar st)"

text \<open>The part of the state that ingestion works on: everything but the logger's records.\<close>

definition ingested :: "ingestor \<Rightarrow> string \<times> (aware_datetime \<times> OHLCV) list \<times> row list list" where
  "ingested st = (product_id st, agg st, inserted st)"

text \<open>An outside world in which the call of \<^verbatim>\<open>insert_rows_json\<close> returns.\<close>

definition returns :: "env \<Rightarrow> bool" where
  "returns e = (\<not> isl (bq_result e))"

text \<open>The same outside world in which every write to the backend succeeds.\<close>

definition ok_env :: "env \<Rightarrow> env" where
  "ok_env e = e\<lparr>bq_result := Inr []\<rparr>"

definition ok_event :: "ws_event \<Rightarrow> ws_event" where
  "ok_event ev = ev\<lparr>ws_env := ok_env (ws_env ev)\<rparr>"

subsection \<open>Sample inputs\<close>

text \<open>An aware datetime on 2024-01-01 (day number 738886), given by hour, minute and UTC
  offset in seconds.\<close>

definition at_time :: "nat \<Rightarrow> nat \<Rightarrow> int \<Rightarrow> aware_datetime" where
  "at_time h m off =
     \<lparr>ordinal = 738886, hour = h, minute = m, second = 0, microsecond = 0, utcoffset = off\<rparr>"

text \<open>Parsers that read the texts used below as Python does.\<close>

definition sample_parsers :: parsers where
  "sample_parsers =
     \<lparr>float_of_str = (\<lambda>s. if s = ''100'' then Some 100 else if s = ''105'' then Some 105
                          else if s = ''2'' then Some 2 else None),
      isoparse_str = (\<lambda>s. if s = ''2024-01-01T10:05:00Z'' then Some (Aware (at_time 10 5 0))
                          else if s = ''2024-01-01T11:02:00Z'' then Some (Aware (at_time 11 2 0))
                          else if s = ''2024-01-01T10:30:00+05:00'' then Some (Aware (at_time 10 30 18000))
                          else if s = ''2024-01-01T05:40:00Z'' then Some (Aware (at_time 5 40 0))
                          else None)\<rparr>"

text \<open>Match messages of the feed: complete, without \<^verbatim>\<open>size\<close>, without \<^verbatim>\<open>price\<close>.\<close>

definition trade :: "string \<Rightarrow> string \<Rightarrow> string \<Rightarrow> (string \<times> json) list" where
  "trade price sz time =
     [(''type'', JStr ''match''), (''price'', JStr price), (''size'', JStr sz), (''time'', JStr time)]"

definition trade_no_size :: "string \<Rightarrow> string \<Rightarrow> (string \<times> json) list" where
  "trade_no_size price time =
     [(''type'', JStr ''match''), (''price'', JStr price), (''time'', JStr time)]"

definition trade_no_price :: "string \<Rightarrow> string \<Rightarrow> (string \<times> json) list" where
  "trade_no_price sz time =
     [(''type'', JStr ''match''), (''size'', JStr sz), (''time'', JStr time)]"

definition sample_env :: "aware_datetime \<Rightarrow> string list \<Rightarrow> env" where
  "sample_env now errs = \<lparr>clock = now, bq_result = Inr errs\<rparr>"

definition sample_event :: "(string \<times> json) list \<Rightarrow> aware_datetime \<Rightarrow> string list \<Rightarrow> ws_event" where
  "sample_event data now errs = \<lparr>ws_msg = Some (JObj data), ws_env = sample_env now errs\<rparr>"

text \<open>A poll whose request succeeded with the given ticker body.\<close>

definition sample_poll :: "(string \<times> json) list \<Rightarrow> poll" where
  "sample_poll data =
     \<lparr>ticker = Inr (JObj data), poll_clock = at_time 10 5 0,
      poll_env = sample_env (at_time 10 5 0) []\<rparr>"

text \<open>A store with a bar for the hour from 10:00 and one for the hour from 11:00.\<close>

definition sample_store :: "(aware_datetime \<times> OHLCV) list" where
  "sample_store =
     [(at_time 10 0 0, add_ticks [(100, 2), (105, 2)] OHLCV_init),
      (at_time 11 0 0, add_ticks [(100, 2)] OHLCV_init)]"

definition sample_state :: ingestor where
  "sample_state = (CoinbaseIngestor_init ''BTC-USD'')\<lparr>agg := sample_store\<rparr>"

text \<open>The state after a trade at 10:05 and one at 11:02, each handled at its own time.\<close>

definition two_trades :: ingestor where
  "two_trades =
     snd (handle_trade_msg sample_parsers (sample_env (at_time 11 2 0) [])
            (trade ''105'' ''2'' ''2024-01-01T11:02:00Z'')
       (snd (handle_trade_msg sample_parsers (sample_env (at_time 10 5 0) [])
            (trade ''100'' ''2'' ''2024-01-01T10:05:00Z'') (CoinbaseIngestor_init ''BTC-USD''))))"

text \<open>Three trades; the flush triggered by the second meets a backend that reports an error.\<close>

definition failing_stream :: "ws_event list" where
  "failing_stream =
     [sample_event (trade ''100'' ''2'' ''2024-01-01T10:05:00Z'') (at_time 10 5 0) [],
      sample_event (trade ''105'' ''2'' ''2024-01-01T11:02:00Z'') (at_time 11 2 0) [''backend down''],
      sample_event (trade ''100'' ''2'' ''2024-01-01T11:02:00Z'') (at_time 11 2 0) []]"

text \<open>The same three trades; the write of the flush triggered by the second raises.\<close>

definition raising_stream :: "ws_event list" where
  "raising_stream =
     [sample_event (trade ''100'' ''2'' ''2024-01-01T10:05:00Z'') (at_time 10 5 0) [],
      \<lparr>ws_msg = Some (JObj (trade ''105'' ''2'' ''2024-01-01T11:02:00Z'')),
       ws_env = \<lparr>clock = at_time 11 2 0, bq_result = Inl GoogleAPIError\<rparr>\<rparr>,
      sample_event (trade ''100'' ''2'' ''2024-01-01T11:02:00Z'') (at_time 11 2 0) []]"

text \<open>A poll whose request fails.\<close>

definition failed_poll :: poll where
  "failed_poll =
     \<lparr>ticker = Inl HTTPError, poll_clock = at_time 11 2 0,
      poll_env = sample_env (at_time 11 2 0) []\<rparr>"

section \<open>Floating-point addition\<close>

lemma round_half_even_of_int: "round_half_even (of_int m) = m"
  by (simp add: round_half_even_def)

text \<open>An integer below \<open>2 ^ 53\<close> in absolute value is a double.\<close>

lemma round_double_of_int:
  assumes "\<bar>n\<bar> < 9007199254740992"
  shows "round_double (of_int n) = of_int n"
proof (cases "n = 0")
  case True
  then show ?thesis by (simp add: round_double_def)
next
  case False
  let ?x = "of_int n :: real"
  let ?L = "\<lfloor>log 2 \<bar>?x\<bar>\<rfloor>"
  have pos: "0 < \<bar>?x\<bar>" using False by simp
  have one: "1 \<le> \<bar>?x\<bar>" using False by (simp flip: of_int_abs)
  have lt: "\<bar>?x\<bar> < 2 powr 53"
  proof -
    have "\<bar>?x\<bar> < 9007199254740992" using assms by (simp flip: of_int_abs)
    then show ?thesis by simp
  qed
  from floor_log_eq_powr_iff [of "\<bar>?x\<bar>" 2 ?L] pos
  have b: "2 powr of_int ?L \<le> \<bar>?x\<bar>" "\<bar>?x\<bar> < 2 powr of_int (?L + 1)"
    by simp_all
  have "2 powr of_int ?L < (2::real) powr 53" using b(1) lt by linarith
  then have "of_int ?L < (53::real)" by (subst (asm) powr_less_cancel_iff) simp_all
  then have L53: "?L \<le> 52" by linarith
  have "(2::real) powr 0 < 2 powr of_int (?L + 1)" using one b(2) by simp
  then have "(0::real) < of_int (?L + 1)" by (subst (asm) powr_less_cancel_iff) simp_all
  then have L0: "0 \<le> ?L" by linarith
  define k where "k = nat (52 - ?L)"
  have e: "ulp_exponent ?x = - int k"
    using L53 L0 by (simp add: ulp_exponent_def k_def)
  have p: "(2::real) powr of_int (- int k) = 1 / 2 ^ k"
    by (simp add: powr_minus_divide powr_realpow)
  have q: "?x / (1 / 2 ^ k) = of_int (n * 2 ^ k)"
    by simp
  have "round_double ?x =
      of_int (round_half_even (?x / 2 powr of_int (ulp_exponent ?x))) * 2 powr of_int (ulp_exponent ?x)"
    using False by (simp add: round_double_def)
  also have "\<dots> = of_int (round_half_even (of_int (n * 2 ^ k))) * (1 / 2 ^ k)"
    unfolding e p q ..
  also have "\<dots> = ?x"
    unfolding round_half_even_of_int by simp
  finally show ?thesis .
qed

lemma fadd_zero [simp]: "fadd x 0 = x" "fadd 0 y = y"
  by (simp_all add: fadd_def)

lemma fadd_exact_int:
  assumes "x \<in> \<int>" and "y \<in> \<int>" and "\<bar>x + y\<bar> < 9007199254740992"
  shows "fadd x y = x + y"
proof -
  from assms(1,2) obtain m n where x: "x = of_int m" and y: "y = of_int n"
    by (auto elim!: Ints_cases)
  have "\<bar>m + n\<bar> < 9007199254740992"
    using assms(3) unfolding x y by (simp flip: of_int_add of_int_abs)
  from round_double_of_int [OF this] show ?thesis
    by (simp add: fadd_def x y)
qed

text \<open>\<open>10 ^ 16 + 1\<close> lies between two doubles at distance 2 and is rounded to the even
  one, \<open>10 ^ 16\<close>.\<close>

lemma round_double_1e16_1: "round_double 10000000000000001 = 10000000000000000"
proof -
  have "\<lfloor>log 2 \<bar>10000000000000001::real\<bar>\<rfloor> = 53"
    by (subst floor_log_eq_powr_iff) simp_all
  then have e: "ulp_exponent 10000000000000001 = 1"
    by (simp add: ulp_exponent_def)
  have "round_half_even (10000000000000001 / 2) = 5000000000000000"
    by (simp add: round_half_even_def)
  then show ?thesis
    by (simp add: round_double_def e)
qed

text \<open>Sizes that are non-negative integers with a total below \<open>2 ^ 53\<close> add up without
  rounding.\<close>

lemma foldl_fadd_exact:
  assumes "\<forall>s \<in> set xs. s \<in> \<int> \<and> 0 \<le> s" and "sum_list xs < 9007199254740992"
  shows "foldl fadd 0 xs = sum_list xs"
  using assms
proof (induction xs rule: rev_induct)
  case Nil
  show ?case by simp
next
  case (snoc x xs)
  have x: "x \<in> \<int>" "0 \<le> x" using snoc.prems(1) by simp_all
  have nn: "0 \<le> sum_list xs"
    using snoc.prems(1) by (intro sum_list_nonneg) simp
  have int: "sum_list xs \<in> \<int>"
    using snoc.prems(1) by (induction xs) simp_all
  have "sum_list xs < 9007199254740992"
    using snoc.prems(2) x(2) by simp
  with snoc.IH snoc.prems(1) have ih: "foldl fadd 0 xs = sum_list xs" by simp
  have "\<bar>sum_list xs + x\<bar> < 9007199254740992"
    using snoc.prems(2) nn x(2) by simp
  from fadd_exact_int [OF int x(1) this] show ?case
    by (simp add: ih)
qed

section \<open>Properties of the bar accumulator\<close>

lemma add_ticks_Nil: "add_ticks [] b = b"
  by (simp add: add_ticks_def)

lemma add_ticks_snoc: "add_ticks (ticks @ [(p, s)]) b = add_tick p s (add_ticks ticks b)"
  by (simp add: add_ticks_def)

lemma add_ticks_single: "add_ticks [(p, s)] OHLCV_init =
    \<lparr>open = Some p, high = Some p, low = Some p, close = Some p, volume = s\<rparr>"
  by (simp add: add_ticks_def add_tick_def OHLCV_init_def)

lemma bar_after_ticks:
  assumes "ticks \<noteq> []"
  shows "add_ticks ticks OHLCV_init =
    \<lparr>open = Some (fst (hd ticks)),
     high = Some (Max (set (map fst ticks))),
     low = Some (Min (set (map fst ticks))),
     close = Some (fst (last ticks)),
     volume = foldl fadd 0 (map snd ticks)\<rparr>"
  using assms
proof (induction ticks rule: rev_nonempty_induct)
  case (single x)
  obtain p s where x: "x = (p, s)" by (cases x)
  show ?case unfolding x by (simp add: add_ticks_single)
next
  case (snoc x xs)
  obtain p s where x: "x = (p, s)" by (cases x)
  have fin: "finite (set (map fst xs))" and ne: "set (map fst xs) \<noteq> {}"
    using snoc.hyps by simp_all
  have mx: "Max (set (map fst (xs @ [x]))) = max p (Max (set (map fst xs)))"
    using Max_insert [OF fin ne, of p] by (simp add: x)
  have mn: "Min (set (map fst (xs @ [x]))) = min p (Min (set (map fst xs)))"
    using Min_insert [OF fin ne, of p] by (simp add: x)
  have hd: "hd (xs @ [x]) = hd xs"
    using snoc.hyps by simp
  show ?case
    unfolding mx mn hd
    by (simp add: x add_ticks_snoc snoc.IH add_tick_def max_def min_def)
qed

text \<open>
  Claim C1 fails as stated: the volume is accumulated in floating point and need not be
  the sum of the sizes. After the sizes \<open>10 ^ 16\<close> and \<open>1\<close> the volume is \<open>10 ^ 16\<close>.
\<close>

theorem volume_not_exact_sum:
  "volume (add_ticks [(10000000000000000, 10000000000000000), (1, 1)] OHLCV_init) =
     10000000000000000
 \<and> sum_list (map snd [(10000000000000000 :: real, 10000000000000000 :: real), (1, 1)]) =
     10000000000000001
 \<and> volume (add_ticks [(10000000000000000, 10000000000000000), (1, 1)] OHLCV_init) \<noteq>
     sum_list (map snd [(10000000000000000 :: real, 10000000000000000 :: real), (1, 1)])"
  by (simp add: add_ticks_def add_tick_def OHLCV_init_def fadd_def round_double_1e16_1)

text \<open>
  Claim C1, amended. For every non-empty sequence of ticks applied to one fresh bar
  accumulator, \<open>open\<close> is the price of the first tick, \<open>close\<close> the price of the last
  tick, \<open>high\<close> and \<open>low\<close> are the maximum and the minimum of all prices seen, and
  \<open>volume\<close> is the result of adding the sizes in arrival order in floating point,
  starting from 0.0. It is the sum of the sizes when no addition rounds, as for sizes that
  are non-negative integers with a total below \<open>2 ^ 53\<close>.
\<close>

theorem add_tick_sequence:
  assumes "ticks \<noteq> []"
  shows "open (add_ticks ticks OHLCV_init) = Some (fst (hd ticks))
       \<and> close (add_ticks ticks OHLCV_init) = Some (fst (last ticks))
       \<and> high (add_ticks ticks OHLCV_init) = Some (Max (set (map fst ticks)))
       \<and> low (add_ticks ticks OHLCV_init) = Some (Min (set (map fst ticks)))
       \<and> volume (add_ticks ticks OHLCV_init) = foldl fadd 0 (map snd ticks)
       \<and> ((\<forall>s \<in> set (map snd ticks). s \<in> \<int> \<and> 0 \<le> s)
            \<and> sum_list (map snd ticks) < 9007199254740992 \<longrightarrow>
          volume (add_ticks ticks OHLCV_init) = sum_list (map snd ticks))"
  using foldl_fadd_exact [of "map snd ticks"] by (simp add: bar_after_ticks [OF assms])

theorem add_tick_sequence_witness:
  "open (add_ticks [(100, 1), (105, 2), (95, 1)] OHLCV_init) = Some 100
 \<and> close (add_ticks [(100, 1), (105, 2), (95, 1)] OHLCV_init) = Some 95
 \<and> high (add_ticks [(100, 1), (105, 2), (95, 1)] OHLCV_init) = Some 105
 \<and> low (add_ticks [(100, 1), (105, 2), (95, 1)] OHLCV_init) = Some 95
 \<and> volume (add_ticks [(100, 1), (105, 2), (95, 1)] OHLCV_init) = 4"
  using add_tick_sequence [of "[(100, 1), (105, 2), (95, 1)]"] by simp

text \<open>
  Claim C10. \<open>to_row\<close> on a bar accumulator to which no tick was ever applied does not
  fail: it returns a row whose open, high, low and close are null and whose volume is 0.
\<close>

theorem to_row_fresh_bar:
  "to_row symbol ts OHLCV_init =
     \<lparr>row_timestamp = ts, row_symbol = symbol, row_open = None, row_high = None,
      row_low = None, row_close = None, row_volume = 0\<rparr>"
  by (simp add: to_row_def OHLCV_init_def)

section \<open>The flush step\<close>

text \<open>The flush loop on a store with unique keys: it never raises, removes exactly the selected
  entries and emits their rows in store order.\<close>

lemma flush_loop_split:
  assumes "distinct (map fst (xs @ ys))" and "\<forall>x \<in> set xs. \<not> Q (fst x)"
  shows "flush_loop pid (filter Q (map fst ys)) (xs @ ys) rows =
    (None, xs @ filter (\<lambda>p. \<not> Q (fst p)) ys,
     rows @ map (\<lambda>p. to_row pid (fst p) (snd p)) (filter (\<lambda>p. Q (fst p)) ys))"
  using assms
proof (induction ys arbitrary: xs rows)
  case Nil
  then show ?case by simp
next
  case (Cons y ys)
  show ?case
  proof (cases "Q (fst y)")
    case True
    have notin: "fst y \<notin> fst ` set xs" "fst y \<notin> fst ` set ys"
      using Cons.prems(1) by auto
    have look: "map_of (xs @ y # ys) (fst y) = Some (snd y)"
      using notin(1) by (simp add: map_add_def map_of_eq_None_iff [THEN iffD2] split: option.split)
    have del: "AList.delete (fst y) (xs @ y # ys) = xs @ ys"
    proof -
      have "AList.delete (fst y) (xs @ y # ys) =
          AList.delete (fst y) xs @ AList.delete (fst y) (y # ys)"
        by (simp add: AList.delete_eq)
      then show ?thesis using notin by simp
    qed
    have d: "distinct (map fst (xs @ ys))"
      using Cons.prems(1) by simp
    have "flush_loop pid (filter Q (map fst (y # ys))) (xs @ y # ys) rows =
        flush_loop pid (fst y # filter Q (map fst ys)) (xs @ y # ys) rows"
      using True by simp
    also have "\<dots> = flush_loop pid (filter Q (map fst ys)) (xs @ ys)
        (rows @ [to_row pid (fst y) (snd y)])"
      unfolding flush_loop.simps look del by simp
    finally show ?thesis
      using True by (simp add: Cons.IH [OF d Cons.prems(2)])
  next
    case False
    have d: "distinct (map fst ((xs @ [y]) @ ys))"
      using Cons.prems(1) by simp
    have q: "\<forall>x \<in> set (xs @ [y]). \<not> Q (fst x)"
      using Cons.prems(2) False by simp
    show ?thesis
      using False Cons.IH [OF d q] by simp
  qed
qed

lemma flush_loop_to_flush:
  assumes "distinct (map fst store)"
  shows "flush_loop pid (to_flush now store) store [] =
    (None, filter (\<lambda>p. \<not> instant (fst p) < instant (current_hour now)) store,
     map (\<lambda>p. to_row pid (fst p) (snd p))
       (filter (\<lambda>p. instant (fst p) < instant (current_hour now)) store))"
  using flush_loop_split [of "[]" store "\<lambda>k. instant k < instant (current_hour now)" pid "[]"] assms
  by (simp add: to_flush_def)

lemma maybe_flush_distinct:
  assumes "distinct (map fst (agg st))"
  shows "maybe_flush_old_buckets e st =
    (if filter (elapsed (clock e)) (agg st) \<noteq> [] then
       write_rows_bq (bq_result e)
         (map (\<lambda>p. to_row (product_id st) (fst p) (snd p)) (filter (elapsed (clock e)) (agg st)))
         (st\<lparr>agg := filter (\<lambda>p. \<not> elapsed (clock e) p) (agg st)\<rparr>)
     else (None, st\<lparr>agg := filter (\<lambda>p. \<not> elapsed (clock e) p) (agg st)\<rparr>))"
  unfolding maybe_flush_old_buckets_def flush_loop_to_flush [OF assms] elapsed_def
  by simp


lemma to_flush_old: "to_flush now store = map fst (filter (elapsed now) store)"
  by (simp add: to_flush_def filter_map comp_def elapsed_def [abs_def])

lemma agg_write_rows_bq: "agg (snd (write_rows_bq result rows st)) = agg st"
  by (simp add: write_rows_bq_def split: sum.splits)

lemma fst_write_rows_bq:
  "fst (write_rows_bq result rows st) = (case result of Inl err \<Rightarrow> Some err | Inr errs \<Rightarrow> None)"
  by (simp add: write_rows_bq_def split: sum.splits)

lemma agg_maybe_flush:
  assumes "distinct (map fst (agg st))"
  shows "agg (snd (maybe_flush_old_buckets e st)) = filter (\<lambda>p. \<not> elapsed (clock e) p) (agg st)"
  by (simp add: maybe_flush_distinct [OF assms] agg_write_rows_bq)


text \<open>
  Claim C8. A second flush at the same hour boundary, with no tick applied in between,
  selects no key, leaves the state as the first flush left it, and hands no batch to the
  sink.
\<close>

theorem flush_idempotent:
  assumes "distinct (map fst (agg st))"
    and "instant (current_hour (clock e2)) = instant (current_hour (clock e1))"
  shows "to_flush (clock e2) (agg (snd (maybe_flush_old_buckets e1 st))) = []
       \<and> maybe_flush_old_buckets e2 (snd (maybe_flush_old_buckets e1 st)) =
           (None, snd (maybe_flush_old_buckets e1 st))
       \<and> inserted (snd (maybe_flush_old_buckets e2 (snd (maybe_flush_old_buckets e1 st)))) =
           inserted (snd (maybe_flush_old_buckets e1 st))"
proof -
  let ?st1 = "snd (maybe_flush_old_buckets e1 st)"
  have a1: "agg ?st1 = filter (\<lambda>p. \<not> elapsed (clock e1) p) (agg st)"
    by (rule agg_maybe_flush [OF assms(1)])
  have d1: "distinct (map fst (agg ?st1))"
    unfolding a1 using assms(1) by (simp add: distinct_map_filter)
  have same: "elapsed (clock e2) = elapsed (clock e1)"
    by (simp add: elapsed_def fun_eq_iff assms(2))
  have none: "filter (elapsed (clock e2)) (agg ?st1) = []"
    unfolding a1 same by simp
  have keep: "filter (\<lambda>p. \<not> elapsed (clock e2) p) (agg ?st1) = agg ?st1"
    unfolding a1 same by simp
  have "maybe_flush_old_buckets e2 ?st1 = (None, ?st1)"
    unfolding maybe_flush_distinct [OF d1] none keep by simp
  moreover have "to_flush (clock e2) (agg ?st1) = []"
    unfolding to_flush_old none by simp
  ultimately show ?thesis by simp
qed

text \<open>
  Claim C7. Eviction and persistence are not atomic. For every key selected by a flush,
  the write is made from a state that no longer holds the key, the batch written holds the
  row of its bar, and the key is absent from the store after the flush, whatever the write
  does; when the backend reports errors they are logged and nothing is put back, and when
  the write raises nothing is logged and nothing is put back.
\<close>

theorem eviction_not_atomic:
  assumes "distinct (map fst (agg st))"
    and "k \<in> set (to_flush (clock e) (agg st))"
  shows "\<exists>rows st1 b.
           maybe_flush_old_buckets e st = write_rows_bq (bq_result e) rows st1
         \<and> map_of (agg st) k = Some b
         \<and> to_row (product_id st) k b \<in> set rows
         \<and> map_of (agg st1) k = None
         \<and> map_of (agg (snd (maybe_flush_old_buckets e st))) k = None
         \<and> inserted (snd (maybe_flush_old_buckets e st)) = inserted st @ [rows]
         \<and> (\<forall>errs. bq_result e = Inr errs \<longrightarrow> errs \<noteq> [] \<longrightarrow>
              logged (snd (maybe_flush_old_buckets e st)) = logged st @ [InsertErrors errs])
         \<and> (\<forall>err. bq_result e = Inl err \<longrightarrow>
              fst (maybe_flush_old_buckets e st) = Some err
            \<and> logged (snd (maybe_flush_old_buckets e st)) = logged st)"
proof -
  let ?ev = "filter (elapsed (clock e)) (agg st)"
  let ?rows = "map (\<lambda>p. to_row (product_id st) (fst p) (snd p)) ?ev"
  let ?st1 = "st\<lparr>agg := filter (\<lambda>p. \<not> elapsed (clock e) p) (agg st)\<rparr>"
  from assms(2) obtain b where kb: "(k, b) \<in> set ?ev"
    by (auto simp: to_flush_old)
  then have ne: "?ev \<noteq> []"
    by (metis empty_iff empty_set)
  have flush: "maybe_flush_old_buckets e st = write_rows_bq (bq_result e) ?rows ?st1"
    unfolding maybe_flush_distinct [OF assms(1)] using ne by simp
  have look: "map_of (agg st) k = Some b"
    using kb assms(1) by simp
  have row: "to_row (product_id st) k b \<in> set ?rows"
    using kb by force
  have "k \<notin> fst ` set (agg ?st1)"
    using kb by (auto simp: elapsed_def)
  then have gone: "map_of (agg ?st1) k = None"
    by (simp add: map_of_eq_None_iff)
  have after: "map_of (agg (snd (maybe_flush_old_buckets e st))) k = None"
    unfolding flush agg_write_rows_bq using gone .
  have ins: "inserted (snd (maybe_flush_old_buckets e st)) = inserted st @ [?rows]"
    unfolding flush by (simp add: write_rows_bq_def split: sum.splits)
  have lg: "\<forall>errs. bq_result e = Inr errs \<longrightarrow> errs \<noteq> [] \<longrightarrow>
      logged (snd (maybe_flush_old_buckets e st)) = logged st @ [InsertErrors errs]"
    unfolding flush by (simp add: write_rows_bq_def)
  have rs: "\<forall>err. bq_result e = Inl err \<longrightarrow>
      fst (maybe_flush_old_buckets e st) = Some err
    \<and> logged (snd (maybe_flush_old_buckets e st)) = logged st"
    unfolding flush by (simp add: write_rows_bq_def)
  show ?thesis
    using flush look row gone after ins lg rs by blast
qed

section \<open>Reachable states\<close>

lemma has_ticks_add_tick: "b = OHLCV_init \<or> has_ticks b \<Longrightarrow> has_ticks (add_tick p s b)"
proof (erule disjE)
  assume "b = OHLCV_init"
  then have "add_tick p s b = add_ticks [(p, s)] OHLCV_init"
    by (simp add: add_ticks_def)
  then show ?thesis unfolding has_ticks_def by blast
next
  assume "has_ticks b"
  then obtain ticks where "ticks \<noteq> []" "b = add_ticks ticks OHLCV_init"
    unfolding has_ticks_def by blast
  then have "add_tick p s b = add_ticks (ticks @ [(p, s)]) OHLCV_init"
    by (simp add: add_ticks_snoc)
  then show ?thesis unfolding has_ticks_def by blast
qed

lemma has_ticks_open: "has_ticks b \<Longrightarrow> open b \<noteq> None"
  unfolding has_ticks_def using bar_after_ticks by fastforce

lemma open_add_tick: "open (add_tick p s b) \<noteq> None"
  by (simp add: add_tick_def)

lemma set_agg_add_tick:
  "set (agg_add_tick key p s store) \<subseteq>
     insert (key, add_tick p s (case map_of store key of None \<Rightarrow> OHLCV_init | Some b \<Rightarrow> b))
       (set store)"
  unfolding agg_add_tick_def by (induction store) auto

lemma distinct_agg_add_tick:
  "distinct (map fst store) \<Longrightarrow> distinct (map fst (agg_add_tick key p s store))"
  unfolding agg_add_tick_def by (rule distinct_update)

lemma bars_agg_add_tick:
  assumes "\<forall>q \<in> set store. has_ticks (snd q) \<and> open (snd q) \<noteq> None"
  shows "\<forall>q \<in> set (agg_add_tick key p s store). has_ticks (snd q) \<and> open (snd q) \<noteq> None"
proof
  fix q assume q: "q \<in> set (agg_add_tick key p s store)"
  let ?prev = "case map_of store key of None \<Rightarrow> OHLCV_init | Some b \<Rightarrow> b"
  have prev: "?prev = OHLCV_init \<or> has_ticks ?prev"
  proof (cases "map_of store key")
    case None
    then show ?thesis by simp
  next
    case (Some b)
    then have "(key, b) \<in> set store" by (rule map_of_SomeD)
    then show ?thesis using assms Some by fastforce
  qed
  from q set_agg_add_tick have "q = (key, add_tick p s ?prev) \<or> q \<in> set store"
    by blast
  then show "has_ticks (snd q) \<and> open (snd q) \<noteq> None"
    using assms has_ticks_add_tick [OF prev] open_add_tick by auto
qed

lemma product_id_maybe_flush: "product_id (snd (maybe_flush_old_buckets e st)) = product_id st"
  by (simp add: maybe_flush_old_buckets_def write_rows_bq_def
      split: prod.splits option.splits sum.splits)

lemma distinct_maybe_flush:
  assumes "distinct (map fst (agg st))"
  shows "distinct (map fst (agg (snd (maybe_flush_old_buckets e st))))"
  unfolding agg_maybe_flush [OF assms] using assms by (simp add: distinct_map_filter)

lemma no_empty_bar_maybe_flush:
  assumes d: "distinct (map fst (agg st))" and inv: "no_empty_bar st"
  shows "no_empty_bar (snd (maybe_flush_old_buckets e st))"
proof -
  let ?ev = "filter (elapsed (clock e)) (agg st)"
  let ?rows = "map (\<lambda>p. to_row (product_id st) (fst p) (snd p)) ?ev"
  have rows: "\<forall>r \<in> set ?rows.
      row_open r \<noteq> None \<and> (\<exists>k b. has_ticks b \<and> r = to_row (product_id st) k b)"
  proof
    fix r assume "r \<in> set ?rows"
    then obtain p where p: "p \<in> set (agg st)" and r: "r = to_row (product_id st) (fst p) (snd p)"
      by auto
    from inv p have "has_ticks (snd p)" "open (snd p) \<noteq> None"
      unfolding no_empty_bar_def by auto
    then show "row_open r \<noteq> None \<and> (\<exists>k b. has_ticks b \<and> r = to_row (product_id st) k b)"
      unfolding r by (auto simp: to_row_def)
  qed
  show ?thesis
    unfolding maybe_flush_distinct [OF d]
    using inv rows by (auto simp: no_empty_bar_def write_rows_bq_def split: sum.splits)
qed

text \<open>Both ingestion paths either raise before touching the state, or add one tick and flush.\<close>

lemma handle_trade_msg_cases:
  "(\<exists>err. handle_trade_msg P e data st = (Some err, st))
 \<or> (\<exists>key price sz. handle_trade_msg P e data st =
       maybe_flush_old_buckets e (st\<lparr>agg := agg_add_tick key price sz (agg st)\<rparr>))"
  unfolding handle_trade_msg_def by (auto split: sum.splits)

lemma rest_fallback_cases:
  "(\<exists>err. rest_fallback P p st = (Some err, st))
 \<or> (\<exists>key price sz. rest_fallback P p st =
       maybe_flush_old_buckets (poll_env p)
         (st\<lparr>agg := agg_add_tick key price sz (agg st)\<rparr>))"
  unfolding rest_fallback_def by (auto split: sum.splits json.splits)

lemma sound_absorb:
  assumes "sound st"
  shows "sound (snd (maybe_flush_old_buckets e
           (st\<lparr>agg := agg_add_tick key price sz (agg st)\<rparr>)))"
proof -
  let ?st1 = "st\<lparr>agg := agg_add_tick key price sz (agg st)\<rparr>"
  have d: "distinct (map fst (agg ?st1))"
    using assms by (simp add: sound_def distinct_agg_add_tick)
  have "no_empty_bar ?st1"
    using assms bars_agg_add_tick [of "agg st" key price sz]
    by (simp add: sound_def no_empty_bar_def)
  then show ?thesis
    unfolding sound_def
    using distinct_maybe_flush [OF d] no_empty_bar_maybe_flush [OF d] by blast
qed

lemma sound_logged: "sound (st\<lparr>logged := l\<rparr>) = sound st"
  by (simp add: sound_def no_empty_bar_def)

lemma reachable_sound: "reachable P st \<Longrightarrow> sound st"
proof (induction rule: reachable.induct)
  case (reach_init pid)
  show ?case by (simp add: sound_def no_empty_bar_def CoinbaseIngestor_init_def)
next
  case (reach_trade st e data)
  from handle_trade_msg_cases [of P e data st] show ?case
    using reach_trade.IH sound_absorb by (metis snd_conv)
next
  case (reach_poll st p)
  from rest_fallback_cases [of P p st] show ?case
    using reach_poll.IH sound_absorb by (metis snd_conv)
next
  case (reach_log st entry)
  then show ?case by (simp add: sound_logged)
qed

text \<open>
  Claim C4. In every reachable state of the ingestor, every bar in the store has received
  at least one tick (so its \<open>open\<close> is set), and every row handed to the sink comes from
  a bar that has received at least one tick.
\<close>

theorem no_row_without_tick:
  assumes "reachable P st"
  shows "(\<forall>p \<in> set (agg st). has_ticks (snd p) \<and> open (snd p) \<noteq> None)
       \<and> (\<forall>batch \<in> set (inserted st). \<forall>r \<in> set batch.
            row_open r \<noteq> None \<and> (\<exists>k b. has_ticks b \<and> r = to_row (product_id st) k b))"
  using reachable_sound [OF assms] by (simp add: sound_def no_empty_bar_def)

lemma reachable_ws_loop: "reachable P st \<Longrightarrow> reachable P (snd (ws_loop P evs st))"
proof (induction evs arbitrary: st)
  case Nil
  then show ?case by simp
next
  case (Cons ev evs)
  show ?case
  proof (cases "ws_msg ev")
    case None
    then show ?thesis using Cons by simp
  next
    case (Some j)
    show ?thesis
    proof (cases j)
      case (JObj data)
      show ?thesis
      proof (cases "dict_get data ''type'' = JStr ''match''")
        case True
        have r: "reachable P (snd (handle_trade_msg P (ws_env ev) data st))"
          using Cons.prems by (rule reach_trade)
        show ?thesis
          using Some JObj True r Cons.IH [OF r]
          by (auto split: prod.splits option.splits)
      next
        case False
        then show ?thesis using Some JObj Cons by simp
      qed
    qed (use Some Cons.prems in simp_all)
  qed
qed

lemma reachable_connect_ws: "reachable P st \<Longrightarrow> reachable P (snd (connect_ws P s st))"
proof (cases s)
  case ConnectFailed
  assume "reachable P st"
  then show ?thesis using ConnectFailed by simp
next
  case (Connected evs c)
  assume "reachable P st"
  then have "reachable P (st\<lparr>logged := logged st @ [Subscribed (product_id st)]\<rparr>)"
    by (rule reach_log)
  from reachable_ws_loop [OF this, of evs] show ?thesis
    using Connected by (auto split: prod.splits option.splits ws_close.splits)
qed

lemma reachable_run_iter: "reachable P st \<Longrightarrow> reachable P (run_iter P st r)"
proof -
  assume r0: "reachable P st"
  obtain o1 st1 where c: "connect_ws P (session r) st = (o1, st1)" by (cases "connect_ws P (session r) st")
  have r1: "reachable P st1"
    using reachable_connect_ws [OF r0, of "session r"] c by simp
  show ?thesis
  proof (cases o1)
    case None
    then show ?thesis using c r1 by (simp add: run_iter_def)
  next
    case (Some e)
    let ?st2 = "st1\<lparr>logged := logged st1 @ [WSFailed e]\<rparr>"
    have r2: "reachable P ?st2" using r1 by (rule reach_log)
    have r3: "reachable P (snd (rest_fallback P (fallback r) ?st2))"
      using r2 by (rule reach_poll)
    show ?thesis
      using c Some r3 reach_log [OF r3]
      by (auto simp: run_iter_def split: prod.splits option.splits)
  qed
qed

text \<open>The run loop only visits reachable states.\<close>

lemma reachable_run: "reachable P st \<Longrightarrow> reachable P (run P rounds st)"
  unfolding run_def by (induction rounds arbitrary: st) (simp_all add: reachable_run_iter)

section \<open>Independence from the errors a write returns\<close>

lemma ingested_logged [simp]: "ingested (st\<lparr>logged := l\<rparr>) = ingested st"
  by (simp add: ingested_def)

lemma ingested_agg:
  "ingested st = ingested st' \<Longrightarrow> ingested (st\<lparr>agg := a\<rparr>) = ingested (st'\<lparr>agg := a\<rparr>)"
  by (simp add: ingested_def)

lemma maybe_flush_ok_env:
  assumes "ingested st = ingested st'" and "returns e"
  shows "fst (maybe_flush_old_buckets e st) = fst (maybe_flush_old_buckets (ok_env e) st')
       \<and> ingested (snd (maybe_flush_old_buckets e st)) =
           ingested (snd (maybe_flush_old_buckets (ok_env e) st'))"
proof -
  from assms(1) have eq: "product_id st' = product_id st" "agg st' = agg st" "inserted st' = inserted st"
    by (simp_all add: ingested_def)
  from assms(2) obtain errs where r: "bq_result e = Inr errs"
    by (cases "bq_result e") (simp_all add: returns_def)
  obtain err store rows where
    fl: "flush_loop (product_id st) (to_flush (clock e) (agg st)) (agg st) [] = (err, store, rows)"
    by (cases "flush_loop (product_id st) (to_flush (clock e) (agg st)) (agg st) []")
  show ?thesis
    unfolding maybe_flush_old_buckets_def eq
    by (cases err) (simp_all add: fl r ok_env_def write_rows_bq_def ingested_def eq)
qed

lemma handle_trade_msg_ok_env:
  assumes "ingested st = ingested st'" and "returns e"
  shows "fst (handle_trade_msg P e data st) = fst (handle_trade_msg P (ok_env e) data st')
       \<and> ingested (snd (handle_trade_msg P e data st)) =
           ingested (snd (handle_trade_msg P (ok_env e) data st'))"
proof -
  have a: "agg st' = agg st" using assms(1) by (simp add: ingested_def)
  show ?thesis
    unfolding handle_trade_msg_def a
    using assms(1) maybe_flush_ok_env [OF ingested_agg [OF assms(1)] assms(2)]
    by (simp split: sum.splits)
qed

lemma ws_loop_ok_env:
  assumes "ingested st = ingested st'" and "\<forall>ev \<in> set evs. returns (ws_env ev)"
  shows "fst (ws_loop P evs st) = fst (ws_loop P (map ok_event evs) st')
       \<and> ingested (snd (ws_loop P evs st)) = ingested (snd (ws_loop P (map ok_event evs) st'))"
  using assms
proof (induction evs arbitrary: st st')
  case Nil
  then show ?case by simp
next
  case (Cons ev evs)
  have m: "ws_msg (ok_event ev) = ws_msg ev" and w: "ws_env (ok_event ev) = ok_env (ws_env ev)"
    by (simp_all add: ok_event_def)
  have rev: "returns (ws_env ev)" and revs: "\<forall>ev \<in> set evs. returns (ws_env ev)"
    using Cons.prems(2) by simp_all
  show ?case
  proof (cases "ws_msg ev")
    case None
    then show ?thesis using Cons.IH [OF Cons.prems(1) revs] m by simp
  next
    case (Some j)
    show ?thesis
    proof (cases j)
      case (JObj data)
      show ?thesis
      proof (cases "dict_get data ''type'' = JStr ''match''")
        case True
        obtain o1 st1 where h1: "handle_trade_msg P (ws_env ev) data st = (o1, st1)"
          by (cases "handle_trade_msg P (ws_env ev) data st")
        obtain o2 st2 where h2: "handle_trade_msg P (ok_env (ws_env ev)) data st' = (o2, st2)"
          by (cases "handle_trade_msg P (ok_env (ws_env ev)) data st'")
        from handle_trade_msg_ok_env [OF Cons.prems(1) rev, of P data]
        have o: "o2 = o1" and i: "ingested st1 = ingested st2"
          by (simp_all add: h1 h2)
        show ?thesis
          using Some JObj True m w h1 h2 o i Cons.IH [OF i revs]
          by (cases o1) simp_all
      next
        case False
        then show ?thesis using Some JObj m Cons.IH [OF Cons.prems(1) revs] by simp
      qed
    qed (use Some m Cons.prems in simp_all)
  qed
qed

text \<open>Errors that a write returns are logged and change nothing else: the stream loop
  raises exactly when it would with a backend that never fails, and the store and the
  batches handed to the sink are the same.\<close>

lemma returned_errors_isolated:
  assumes "\<forall>ev \<in> set evs. returns (ws_env ev)"
  shows "fst (ws_loop P evs st) = fst (ws_loop P (map ok_event evs) st)
       \<and> ingested (snd (ws_loop P evs st)) = ingested (snd (ws_loop P (map ok_event evs) st))"
  using ws_loop_ok_env [OF refl assms] .

text \<open>An exception of the write leaves the flush, the trade handler and the stream loop.\<close>

lemma write_exception_propagates:
  assumes "distinct (map fst (agg st))" and "to_flush (clock e) (agg st) \<noteq> []"
    and "bq_result e = Inl err"
  shows "fst (maybe_flush_old_buckets e st) = Some err"
  unfolding maybe_flush_distinct [OF assms(1)]
  using assms(2,3) by (simp add: to_flush_old fst_write_rows_bq)

lemma handler_exception_ends_stream:
  assumes "ws_msg ev = Some (JObj data)" and "dict_get data ''type'' = JStr ''match''"
    and "handle_trade_msg P (ws_env ev) data st = (Some err, st')"
  shows "ws_loop P (ev # evs) st = (Some err, st')"
  using assms by simp

section \<open>The flush step on a sample store\<close>

lemmas sample_defs = at_time_def sample_parsers_def trade_def trade_no_size_def sample_env_def
  sample_store_def sample_state_def CoinbaseIngestor_init_def

lemmas eval_defs = instant_def current_hour_def OHLCV_init_def add_tick_def add_ticks_def
  to_row_def dict_get_def dict_get_default_def agg_add_tick_def write_rows_bq_def to_flush_def
  maybe_flush_old_buckets_def handle_trade_msg_def rest_fallback_def run_iter_def run_def
  hour_us_def floor_utc_def


theorem flush_idempotent_witness:
  "distinct (map fst (agg sample_state))
 \<and> instant (current_hour (at_time 11 40 0)) = instant (current_hour (at_time 11 2 0))
 \<and> length (inserted (snd (maybe_flush_old_buckets (sample_env (at_time 11 2 0) []) sample_state))) = 1
 \<and> inserted (snd (maybe_flush_old_buckets (sample_env (at_time 11 40 0) [])
      (snd (maybe_flush_old_buckets (sample_env (at_time 11 2 0) []) sample_state)))) =
    inserted (snd (maybe_flush_old_buckets (sample_env (at_time 11 2 0) []) sample_state))"
  using flush_idempotent [of sample_state "sample_env (at_time 11 40 0) []" "sample_env (at_time 11 2 0) []"]
  by (simp add: sample_defs eval_defs)

theorem eviction_not_atomic_witness:
  "distinct (map fst (agg sample_state))
 \<and> at_time 10 0 0 \<in> set (to_flush (at_time 11 2 0) (agg sample_state))
 \<and> map_of (agg sample_state) (at_time 10 0 0) \<noteq> None
 \<and> map_of (agg (snd (maybe_flush_old_buckets (sample_env (at_time 11 2 0) [''backend down''])
      sample_state))) (at_time 10 0 0) = None
 \<and> length (inserted (snd (maybe_flush_old_buckets (sample_env (at_time 11 2 0) [''backend down''])
      sample_state))) = 1
 \<and> logged (snd (maybe_flush_old_buckets (sample_env (at_time 11 2 0) [''backend down''])
      sample_state)) = [InsertErrors [''backend down'']]"
  using eviction_not_atomic [of sample_state "at_time 10 0 0" "sample_env (at_time 11 2 0) [''backend down'']"]
  by (simp add: sample_defs eval_defs)

section \<open>Bucket keys\<close>

lemmas sample_defs2 = sample_defs trade_no_price_def sample_event_def

text \<open>For a timestamp already in UTC the key is the start of its hour in UTC.\<close>

lemma bucket_key_utc_floor:
  assumes "utcoffset t = 0" and "minute t < 60" and "second t < 60" and "microsecond t < 1000000"
  shows "instant (replace_hour_utc (Aware t)) = floor_utc hour_us t"
proof -
  let ?H = "ordinal t * 24 + int (hour t)"
  let ?r = "(int (minute t) * 60 + int (second t)) * 1000000 + int (microsecond t)"
  have t: "instant t = ?r + ?H * hour_us"
    using assms(1) by (simp add: instant_def hour_us_def algebra_simps)
  have k: "instant (replace_hour_utc (Aware t)) = ?H * hour_us"
    by (simp add: instant_def hour_us_def algebra_simps)
  have r0: "0 \<le> ?r" by simp
  have "int (minute t) \<le> 59" "int (second t) \<le> 59" "int (microsecond t) \<le> 999999"
    using assms by simp_all
  then have r1: "?r < hour_us"
    by (simp add: hour_us_def)
  have "(?r + ?H * hour_us) div hour_us = ?H"
    using r0 r1 by (simp add: hour_us_def)
  then show ?thesis
    unfolding floor_utc_def t k by simp
qed

text \<open>
  Claim C3, at a timestamp that carries the offset +05:00. The trade time
  2024-01-01T10:30:00+05:00 is the instant 05:30 UTC, whose hour in UTC starts at 05:00; the
  ingestor files it under the key 10:00 UTC. It shares its UTC hour with 05:40 UTC and yet
  gets a different key.
\<close>

theorem bucket_key_ignores_offset:
  "replace_hour_utc (Aware (at_time 10 30 18000)) = at_time 10 0 0
 \<and> floor_utc hour_us (at_time 10 30 18000) = instant (at_time 5 0 0)
 \<and> instant (replace_hour_utc (Aware (at_time 10 30 18000))) \<noteq> floor_utc hour_us (at_time 10 30 18000)
 \<and> floor_utc hour_us (at_time 10 30 18000) = floor_utc hour_us (at_time 5 40 0)
 \<and> replace_hour_utc (Aware (at_time 10 30 18000)) \<noteq> replace_hour_utc (Aware (at_time 5 40 0))
 \<and> map fst (agg (snd (handle_trade_msg sample_parsers (sample_env (at_time 5 31 0) [])
      (trade ''100'' ''2'' ''2024-01-01T10:30:00+05:00'') (CoinbaseIngestor_init ''BTC-USD'')))) =
    [at_time 10 0 0]"
  by (simp add: sample_defs2 eval_defs)

theorem no_row_without_tick_witness:
  "reachable sample_parsers two_trades
 \<and> inserted two_trades =
     [[\<lparr>row_timestamp = at_time 10 0 0, row_symbol = ''BTC-USD'', row_open = Some 100,
        row_high = Some 100, row_low = Some 100, row_close = Some 100, row_volume = 2\<rparr>]]
 \<and> agg two_trades =
     [(at_time 11 0 0,
       \<lparr>open = Some 105, high = Some 105, low = Some 105, close = Some 105, volume = 2\<rparr>)]"
proof -
  have r: "reachable sample_parsers two_trades"
    unfolding two_trades_def by (intro reach_trade reach_init)
  have i: "inserted two_trades =
     [[\<lparr>row_timestamp = at_time 10 0 0, row_symbol = ''BTC-USD'', row_open = Some 100,
        row_high = Some 100, row_low = Some 100, row_close = Some 100, row_volume = 2\<rparr>]]"
    by (simp add: two_trades_def sample_defs2 eval_defs)
  have a: "agg two_trades =
     [(at_time 11 0 0,
       \<lparr>open = Some 105, high = Some 105, low = Some 105, close = Some 105, volume = 2\<rparr>)]"
    by (simp add: two_trades_def sample_defs2 eval_defs)
  show ?thesis
    using r i a no_row_without_tick [OF r] by simp
qed

section \<open>Write failures\<close>

text \<open>
  Claim C5, at a write that raises. The stream delivers three trades, and the flush
  triggered by the second writes the bar of the elapsed hour; \<^verbatim>\<open>insert_rows_json\<close>
  raises. The exception leaves \<^verbatim>\<open>write_rows_bq\<close>, the flush, the trade handler and the
  stream loop: the third trade is never applied, nothing is logged by the sink, and the
  run loop records a failed websocket session and turns to the poll. With a backend that
  returns instead, the same stream is processed to its end.
\<close>

theorem write_exception_ends_stream:
  "ws_loop sample_parsers raising_stream (CoinbaseIngestor_init ''BTC-USD'') =
     (Some GoogleAPIError,
      \<lparr>product_id = ''BTC-USD'',
       agg = [(at_time 11 0 0, add_ticks [(105, 2)] OHLCV_init)],
       inserted = [[to_row ''BTC-USD'' (at_time 10 0 0) (add_ticks [(100, 2)] OHLCV_init)]],
       logged = []\<rparr>)
 \<and> run_iter sample_parsers (CoinbaseIngestor_init ''BTC-USD'')
      \<lparr>session = Connected raising_stream ClosedOK, fallback = failed_poll\<rparr> =
     \<lparr>product_id = ''BTC-USD'',
      agg = [(at_time 11 0 0, add_ticks [(105, 2)] OHLCV_init)],
      inserted = [[to_row ''BTC-USD'' (at_time 10 0 0) (add_ticks [(100, 2)] OHLCV_init)]],
      logged = [Subscribed ''BTC-USD'', WSFailed GoogleAPIError, RESTFailed HTTPError]\<rparr>
 \<and> ws_loop sample_parsers (map ok_event raising_stream) (CoinbaseIngestor_init ''BTC-USD'') =
     (None,
      \<lparr>product_id = ''BTC-USD'',
       agg = [(at_time 11 0 0, add_ticks [(105, 2), (100, 2)] OHLCV_init)],
       inserted = [[to_row ''BTC-USD'' (at_time 10 0 0) (add_ticks [(100, 2)] OHLCV_init)]],
       logged = [Inserted 1]\<rparr>)"
  by (simp add: raising_stream_def failed_poll_def sample_defs2 eval_defs ok_event_def ok_env_def)

text \<open>For comparison, a write that returns errors: they are logged and the third trade
  is applied.\<close>

lemma returned_errors_logged:
  "ws_loop sample_parsers failing_stream (CoinbaseIngestor_init ''BTC-USD'') =
     (None,
      \<lparr>product_id = ''BTC-USD'',
       agg = [(at_time 11 0 0, add_ticks [(105, 2), (100, 2)] OHLCV_init)],
       inserted = [[to_row ''BTC-USD'' (at_time 10 0 0) (add_ticks [(100, 2)] OHLCV_init)]],
       logged = [InsertErrors [''backend down'']]\<rparr>)"
  by (simp add: failing_stream_def sample_defs2 eval_defs)

section \<open>Malformed messages and missing fields\<close>

text \<open>
  Claim C6 fails as stated: a match message without \<^verbatim>\<open>size\<close> is not dropped. The
  message below changes the store.
\<close>

theorem missing_size_not_dropped:
  "map_of (trade_no_size ''100'' ''2024-01-01T10:05:00Z'') ''size'' = None
 \<and> ws_loop sample_parsers
      [sample_event (trade_no_size ''100'' ''2024-01-01T10:05:00Z'') (at_time 10 5 0) []]
      (CoinbaseIngestor_init ''BTC-USD'') =
     (None, (CoinbaseIngestor_init ''BTC-USD'')
        \<lparr>agg := [(at_time 10 0 0,
           \<lparr>open = Some 100, high = Some 100, low = Some 100, close = Some 100, volume = 0\<rparr>)]\<rparr>)
 \<and> agg (snd (ws_loop sample_parsers
      [sample_event (trade_no_size ''100'' ''2024-01-01T10:05:00Z'') (at_time 10 5 0) []]
      (CoinbaseIngestor_init ''BTC-USD''))) \<noteq> agg (CoinbaseIngestor_init ''BTC-USD'')"
  by (simp add: sample_defs2 eval_defs)

text \<open>
  Claim C6, amended. A message that does not decode, and a decoded JSON object whose type
  is not \<^verbatim>\<open>match\<close>, are dropped silently: the stream loop goes on with the next message
  from the unchanged state. A match message that lacks only \<^verbatim>\<open>size\<close> is not dropped: a
  tick of size 0 is applied at its bucket and the flush follows.
\<close>

theorem malformed_dropped_or_defaulted:
  "(ws_msg ev = None \<longrightarrow> ws_loop P (ev # evs) st = ws_loop P evs st)
 \<and> (ws_msg ev = Some (JObj data) \<longrightarrow> dict_get data ''type'' \<noteq> JStr ''match'' \<longrightarrow>
      ws_loop P (ev # evs) st = ws_loop P evs st)
 \<and> (ws_msg ev = Some (JObj data) \<longrightarrow> dict_get data ''type'' = JStr ''match'' \<longrightarrow>
      map_of data ''size'' = None \<longrightarrow>
      py_float P (dict_get data ''price'') = Inr price \<longrightarrow>
      py_isoparse P (dict_get data ''time'') = Inr t \<longrightarrow>
      handle_trade_msg P (ws_env ev) data st =
        maybe_flush_old_buckets (ws_env ev)
          (st\<lparr>agg := agg_add_tick (replace_hour_utc t) price 0 (agg st)\<rparr>)
    \<and> ws_loop P (ev # evs) st =
        (case maybe_flush_old_buckets (ws_env ev)
                (st\<lparr>agg := agg_add_tick (replace_hour_utc t) price 0 (agg st)\<rparr>) of
           (Some err, st') \<Rightarrow> (Some err, st')
         | (None, st') \<Rightarrow> ws_loop P evs st'))"
  by (simp add: handle_trade_msg_def dict_get_default_def)

text \<open>A match message without \<^verbatim>\<open>price\<close> raises out of the stream loop.\<close>

lemma missing_price_ends_stream:
  assumes "ws_msg ev = Some (JObj data)" and "dict_get data ''type'' = JStr ''match''"
    and "map_of data ''price'' = None"
  shows "ws_loop P (ev # evs) st = (Some TypeError, st)"
  using assms by (simp add: handle_trade_msg_def dict_get_def)

text \<open>So does a message that decodes to something other than an object.\<close>

lemma non_object_ends_stream:
  assumes "ws_msg ev = Some j" and "\<forall>data. j \<noteq> JObj data"
  shows "ws_loop P (ev # evs) st = (Some AttributeError, st)"
  using assms by (cases j) simp_all

theorem malformed_dropped_or_defaulted_witness:
  "ws_loop sample_parsers
     (\<lparr>ws_msg = None, ws_env = sample_env (at_time 10 5 0) []\<rparr> # failing_stream)
     (CoinbaseIngestor_init ''BTC-USD'') =
   ws_loop sample_parsers failing_stream (CoinbaseIngestor_init ''BTC-USD'')
 \<and> dict_get [(''type'', JStr ''subscriptions'')] ''type'' \<noteq> JStr ''match''
 \<and> ws_loop sample_parsers
     (sample_event [(''type'', JStr ''subscriptions'')] (at_time 10 5 0) [] # failing_stream)
     (CoinbaseIngestor_init ''BTC-USD'') =
   ws_loop sample_parsers failing_stream (CoinbaseIngestor_init ''BTC-USD'')
 \<and> map_of (trade_no_size ''100'' ''2024-01-01T10:05:00Z'') ''size'' = None
 \<and> py_float sample_parsers (dict_get (trade_no_size ''100'' ''2024-01-01T10:05:00Z'') ''price'') =
     Inr 100
 \<and> py_isoparse sample_parsers (dict_get (trade_no_size ''100'' ''2024-01-01T10:05:00Z'') ''time'') =
     Inr (Aware (at_time 10 5 0))
 \<and> agg (snd (handle_trade_msg sample_parsers (sample_env (at_time 10 5 0) [])
      (trade_no_size ''100'' ''2024-01-01T10:05:00Z'') (CoinbaseIngestor_init ''BTC-USD''))) =
     [(at_time 10 0 0, add_tick 100 0 OHLCV_init)]"
  using malformed_dropped_or_defaulted [of "\<lparr>ws_msg = None, ws_env = sample_env (at_time 10 5 0) []\<rparr>"
      sample_parsers failing_stream "CoinbaseIngestor_init ''BTC-USD''"
      "trade_no_size ''100'' ''2024-01-01T10:05:00Z''" 100 "Aware (at_time 10 5 0)"]
    malformed_dropped_or_defaulted [of
      "sample_event [(''type'', JStr ''subscriptions'')] (at_time 10 5 0) []"
      sample_parsers failing_stream "CoinbaseIngestor_init ''BTC-USD''"
      "[(''type'', JStr ''subscriptions'')]" 100 "Aware (at_time 10 5 0)"]
    malformed_dropped_or_defaulted [of
      "sample_event (trade_no_size ''100'' ''2024-01-01T10:05:00Z'') (at_time 10 5 0) []"
      sample_parsers "[]" "CoinbaseIngestor_init ''BTC-USD''"
      "trade_no_size ''100'' ''2024-01-01T10:05:00Z''" 100 "Aware (at_time 10 5 0)"]
  by (simp add: sample_defs2 eval_defs)

text \<open>
  Claim C9. A match message or ticker body without \<^verbatim>\<open>size\<close> is not dropped: the
  tick is applied with size 0, which leaves the volume of the bar unchanged and updates
  open, high, low and close from the price. A missing \<^verbatim>\<open>price\<close> is not defaulted: the
  conversion raises and the state is unchanged.
\<close>

theorem missing_size_defaults_to_zero:
  "(map_of data ''size'' = None \<longrightarrow>
      py_float P (dict_get data ''price'') = Inr price \<longrightarrow>
      py_isoparse P (dict_get data ''time'') = Inr t \<longrightarrow>
        handle_trade_msg P e data st =
          maybe_flush_old_buckets e
            (st\<lparr>agg := agg_add_tick (replace_hour_utc t) price 0 (agg st)\<rparr>))
 \<and> (map_of data ''size'' = None \<longrightarrow>
      ticker p = Inr (JObj data) \<longrightarrow>
      py_float P (dict_get data ''price'') = Inr price \<longrightarrow>
      (if truthy (dict_get data ''time'') then py_isoparse P (dict_get data ''time'')
       else Inr (Aware (poll_clock p))) = Inr t \<longrightarrow>
        rest_fallback P p st =
          maybe_flush_old_buckets (poll_env p)
            (st\<lparr>agg := agg_add_tick (replace_hour_utc t) price 0 (agg st)\<rparr>))
 \<and> map_of (agg_add_tick key price 0 store) key =
      Some (add_tick price 0 (case map_of store key of None \<Rightarrow> OHLCV_init | Some b \<Rightarrow> b))
 \<and> volume (add_tick price 0 b) = volume b
 \<and> open (add_tick price 0 b) = (if open b = None then Some price else open b)
 \<and> high (add_tick price 0 b) =
      (case high b of None \<Rightarrow> Some price | Some h \<Rightarrow> Some (max h price))
 \<and> low (add_tick price 0 b) =
      (case low b of None \<Rightarrow> Some price | Some l \<Rightarrow> Some (min l price))
 \<and> close (add_tick price 0 b) = Some price
 \<and> (map_of data ''price'' = None \<longrightarrow> handle_trade_msg P e data st = (Some TypeError, st))
 \<and> (map_of data ''price'' = None \<longrightarrow> ticker p = Inr (JObj data) \<longrightarrow>
      rest_fallback P p st = (Some TypeError, st))"
  by (auto simp: handle_trade_msg_def rest_fallback_def dict_get_default_def dict_get_def
      agg_add_tick_def update_conv' add_tick_def max_def min_def split: option.splits)

theorem missing_size_defaults_to_zero_witness:
  "map_of (trade_no_size ''100'' ''2024-01-01T10:05:00Z'') ''size'' = None
 \<and> handle_trade_msg sample_parsers (sample_env (at_time 10 5 0) [])
      (trade_no_size ''100'' ''2024-01-01T10:05:00Z'') sample_state =
     (None, sample_state\<lparr>agg :=
        [(at_time 10 0 0, add_ticks [(100, 2), (105, 2), (100, 0)] OHLCV_init),
         (at_time 11 0 0, add_ticks [(100, 2)] OHLCV_init)]\<rparr>)
 \<and> map_of [(''price'', JStr ''100'')] ''size'' = None
 \<and> rest_fallback sample_parsers (sample_poll [(''price'', JStr ''100'')]) sample_state =
     (None, sample_state\<lparr>agg :=
        [(at_time 10 0 0, add_ticks [(100, 2), (105, 2), (100, 0)] OHLCV_init),
         (at_time 11 0 0, add_ticks [(100, 2)] OHLCV_init)]\<rparr>)
 \<and> volume (add_ticks [(100, 2), (105, 2), (100, 0)] OHLCV_init) = 4
 \<and> close (add_ticks [(100, 2), (105, 2), (100, 0)] OHLCV_init) = Some 100
 \<and> map_of (trade_no_price ''2'' ''2024-01-01T10:05:00Z'') ''price'' = None
 \<and> handle_trade_msg sample_parsers (sample_env (at_time 10 5 0) [])
      (trade_no_price ''2'' ''2024-01-01T10:05:00Z'') sample_state = (Some TypeError, sample_state)"
  using missing_size_defaults_to_zero [of "trade_no_size ''100'' ''2024-01-01T10:05:00Z''"
      sample_parsers 100 "Aware (at_time 10 5 0)" "sample_env (at_time 10 5 0) []" sample_state
      "sample_poll (trade_no_size ''100'' ''2024-01-01T10:05:00Z'')"]
    missing_size_defaults_to_zero [of "[(''price'', JStr ''100'')]"
      sample_parsers 100 "Aware (at_time 10 5 0)" "sample_env (at_time 10 5 0) []" sample_state
      "sample_poll [(''price'', JStr ''100'')]"]
    missing_size_defaults_to_zero [of "trade_no_price ''2'' ''2024-01-01T10:05:00Z''"
      sample_parsers 100 "Aware (at_time 10 5 0)" "sample_env (at_time 10 5 0) []" sample_state
      "sample_poll (trade_no_price ''2'' ''2024-01-01T10:05:00Z'')"]
  by (simp add: sample_defs2 eval_defs sample_poll_def fadd_exact_int)

end
